theory Spec2Isabelle
  imports Complex_Main
begin

section \<open>TestGrammar/src/GrammarFile.cpp: the TSV loader and its self-check\<close>

subsection \<open>Columns, strings and the delimiter loop\<close>

text \<open>
  Modelled from the spec: GrammarFile.h, which declares the column indices
  \<open>TSV_KEYNAME\<close> ... \<open>TSV_NOTES\<close>, is not among the sources. The indices follow the
  schema source format of the specification (key name, type-list, introduced-version,
  deprecated-version, required, indirect-reference, inheritable, default-values,
  possible-values, special-case, links, and the optional notes column); it is the order by
  which \<open>XMLCreator.createXML\<close> indexes \<open>column_values\<close> as well.
\<close>

definition TSV_KEYNAME :: nat where "TSV_KEYNAME = 0"
definition TSV_TYPE :: nat where "TSV_TYPE = 1"
definition TSV_SINCEVERSION :: nat where "TSV_SINCEVERSION = 2"
definition TSV_DEPRECATEDIN :: nat where "TSV_DEPRECATEDIN = 3"
definition TSV_REQUIRED :: nat where "TSV_REQUIRED = 4"
definition TSV_INDIRECTREF :: nat where "TSV_INDIRECTREF = 5"
definition TSV_INHERITABLE :: nat where "TSV_INHERITABLE = 6"
definition TSV_DEFAULTVALUE :: nat where "TSV_DEFAULTVALUE = 7"
definition TSV_POSSIBLEVALUES :: nat where "TSV_POSSIBLEVALUES = 8"
definition TSV_SPECIALCASE :: nat where "TSV_SPECIALCASE = 9"
definition TSV_LINK :: nat where "TSV_LINK = 10"
definition TSV_NOTES :: nat where "TSV_NOTES = 11"

lemmas TSV_defs =
  TSV_KEYNAME_def TSV_TYPE_def TSV_SINCEVERSION_def TSV_DEPRECATEDIN_def TSV_REQUIRED_def
  TSV_INDIRECTREF_def TSV_INHERITABLE_def TSV_DEFAULTVALUE_def TSV_POSSIBLEVALUES_def
  TSV_SPECIALCASE_def TSV_LINK_def TSV_NOTES_def

text \<open>
  \<open>::toupper\<close> in the "C" locale: the 26 lower-case letters go to their upper-case
  letters, every other character stays.
\<close>

definition toupper :: "char \<Rightarrow> char" where
  "toupper c =
     (case map_of (zip ''abcdefghijklmnopqrstuvwxyz'' ''ABCDEFGHIJKLMNOPQRSTUVWXYZ'') c of
        Some u \<Rightarrow> u
      | None \<Rightarrow> c)"

text \<open>
  The delimiter loop of \<open>CGrammarReader::load\<close> (lines 48 to 54): every occurrence of
  the delimiter closes the substring that started at \<open>prev_pos\<close>, and what is left after
  the last delimiter is pushed as the last word. \<open>cur\<close> is \<open>line.substr(prev_pos, pos - prev_pos)\<close>
  as far as it has been scanned. The delimiter is a single character.
\<close>

fun split_from :: "char \<Rightarrow> string \<Rightarrow> string \<Rightarrow> string list" where
  "split_from delimeter cur [] = [cur]"
| "split_from delimeter cur (c # cs) =
     (if c = delimeter then cur # split_from delimeter [] cs
      else split_from delimeter (cur @ [c]) cs)"

definition split_line :: "string \<Rightarrow> char \<Rightarrow> string list" where
  "split_line line delimeter = split_from delimeter [] line"

text \<open>
  Modelled from the spec: \<open>split\<close> of utils, which \<open>CGrammarReader::check\<close> calls on the
  cells, is not among the sources. Lists within a cell are separated by \<open>;\<close> and sub-lists
  by \<open>,\<close>: the function is taken to be the delimiter loop that \<open>load\<close> writes inline.
\<close>

definition split :: "string \<Rightarrow> char \<Rightarrow> string list" where
  "split s separator = split_from separator [] s"

subsection \<open>\<open>CGrammarReader::load\<close>\<close>

text \<open>
  Reading \<open>vec[i]\<close> of a \<open>std::vector\<close> at an index that is not below its size is
  undefined behaviour; the model stops there with \<open>OutOfRange\<close>.
\<close>

datatype access_error = OutOfRange

text \<open>
  The four \<open>std::transform\<close> calls (lines 62 to 65): the whole field is upper-cased,
  whatever it starts with.
\<close>

definition upper_field :: "nat \<Rightarrow> string list \<Rightarrow> string list" where
  "upper_field i vec = vec[i := map toupper (vec ! i)]"

definition upper_fields :: "string list \<Rightarrow> string list" where
  "upper_fields vec =
     upper_field TSV_INHERITABLE (upper_field TSV_INDIRECTREF
       (upper_field TSV_REQUIRED (upper_field TSV_TYPE vec)))"

text \<open>
  The \<open>while (getline(file, line))\<close> loop over the lines that are left, with the member
  \<open>data_list\<close> passed along. \<open>Inr (False, _)\<close> is the early \<open>return false\<close> on a first line
  of fewer than \<open>TSV_NOTES\<close> columns; a later line of fewer than seven columns makes one of
  the four \<open>vec[...]\<close> reads go out of range.
\<close>

fun load_lines ::
  "char \<Rightarrow> string list \<Rightarrow> string list list \<Rightarrow> access_error + (bool \<times> string list list)" where
  "load_lines delimeter [] data_list = Inr (True, data_list)"
| "load_lines delimeter (line # rest) data_list =
     (let vec = split_line line delimeter in
      if data_list = [] \<and> length vec < TSV_NOTES then Inr (False, data_list)
      else if length vec \<le> TSV_INHERITABLE then Inl OutOfRange
      else load_lines delimeter rest (data_list @ [upper_fields vec]))"

text \<open>
  \<open>load\<close> on a reader whose \<open>data_list\<close> is still empty. The file is \<open>None\<close> when
  \<open>std::ifstream\<close> cannot open it: \<open>getline\<close> then fails at once, as it does on a file
  without lines.
\<close>

definition load :: "char \<Rightarrow> string list option \<Rightarrow> access_error + (bool \<times> string list list)" where
  "load delimeter file =
     load_lines delimeter (case file of None \<Rightarrow> [] | Some lines \<Rightarrow> lines) []"

subsection \<open>\<open>CGrammarReader::check\<close>\<close>

text \<open>
  What \<open>check\<close> takes from outside the class: \<open>file_exists\<close> (the file system) and
  \<open>get_path_dir\<close> of utils, and the vector \<open>basic_types\<close> of the recognised type names,
  none of which is among the sources. They are parameters of the model.
\<close>

record grammar_env =
  file_exists :: "string \<Rightarrow> bool"
  get_path_dir :: "string \<Rightarrow> string"
  basic_types :: "string list"

text \<open>
  The report stream is the list of the lines written to it, in order. A call ends by
  returning its boolean or in an out-of-range read.
\<close>

type_synonym report = "string list"

datatype outcome = Returned bool | Fault access_error

text \<open>
  The pattern \<open>^\[[A-Z,a-z,0-9,_,\,]*\]$\<close> of line 124: an opening bracket, any number of
  letters, digits, underscores and commas, a closing bracket.
\<close>

definition link_char :: "char \<Rightarrow> bool" where
  "link_char c \<longleftrightarrow>
     c \<in> set ''ABCDEFGHIJKLMNOPQRSTUVWXYZabcdefghijklmnopqrstuvwxyz0123456789_,''"

definition regex_match :: "string \<Rightarrow> bool" where
  "regex_match s =
     (case s of
        [] \<Rightarrow> False
      | c # cs \<Rightarrow> c = CHR ''['' \<and> cs \<noteq> [] \<and> last cs = CHR '']'' \<and> list_all link_char (butlast cs))"

text \<open>\<open>s.substr(pos, n)\<close> for \<open>pos\<close> within the string.\<close>

definition substr :: "string \<Rightarrow> nat \<Rightarrow> nat \<Rightarrow> string" where
  "substr s pos n = take n (drop pos s)"

definition complex_type :: "string \<Rightarrow> bool" where
  "complex_type t \<longleftrightarrow>
     t = ''DICTIONARY'' \<or> t = ''NUMBER-TREE'' \<or> t = ''NAME-TREE'' \<or> t = ''STREAM'' \<or> t = ''ARRAY''"

text \<open>The lines of the report, each with the file name and the key of the row.\<close>

definition msg_duplicate :: "string \<Rightarrow> string \<Rightarrow> string" where
  "msg_duplicate file_name key = ''Duplicate keys in: '' @ file_name @ ''::'' @ key"

definition msg_links_arity :: "string \<Rightarrow> string \<Rightarrow> string" where
  "msg_links_arity file_name key = ''Wrong # of types vs. # of links '' @ file_name @ ''::'' @ key"

definition msg_link_pattern :: "string \<Rightarrow> string \<Rightarrow> string" where
  "msg_link_pattern file_name key = ''Wrong pattern in links '' @ file_name @ ''::'' @ key"

definition msg_not_linked :: "string \<Rightarrow> string \<Rightarrow> string \<Rightarrow> string" where
  "msg_not_linked t file_name key = ''Type '' @ t @ '' not linked in: '' @ file_name @ ''::'' @ key"

definition msg_no_link :: "string \<Rightarrow> string \<Rightarrow> string \<Rightarrow> string" where
  "msg_no_link lnk file_name key =
     ''Link doesn'' @ [CHR 0x27] @ ''t exist: '' @ lnk @ '' in: '' @ file_name @ ''::'' @ key"

definition msg_wrong_type :: "string \<Rightarrow> string \<Rightarrow> string \<Rightarrow> string" where
  "msg_wrong_type t file_name key = ''Wrong type:'' @ t @ '' in:'' @ file_name @ ''::'' @ key"

definition msg_complex_value :: "string \<Rightarrow> string \<Rightarrow> string \<Rightarrow> string" where
  "msg_complex_value possible file_name key =
     ''Complex type does have possible value defined:'' @ possible @ '' in:'' @ file_name @ ''::'' @ key"

definition msg_values_arity :: "string \<Rightarrow> string \<Rightarrow> string" where
  "msg_values_arity file_name key =
     ''Wrong # of types vs. # of possible values '' @ file_name @ ''::'' @ key"

definition msg_inheritable :: "string \<Rightarrow> string \<Rightarrow> string" where
  "msg_inheritable file_name key = file_name @ ''::'' @ key"

text \<open>
  One turn of the loop over \<open>links\<close> (lines 138 to 166), for the link at \<open>link_pos\<close>. The
  pattern has matched where \<open>substr\<close> is taken, so the link has its two brackets.
\<close>

definition check_link ::
  "grammar_env \<Rightarrow> string \<Rightarrow> string \<Rightarrow> string list \<Rightarrow> nat \<Rightarrow> string \<Rightarrow> report" where
  "check_link env file_name key types link_pos link =
     (if \<not> regex_match link then [msg_link_pattern file_name key]
      else
        (if length types > link_pos \<and> link = ''[]'' \<and> complex_type (types ! link_pos)
         then [msg_not_linked (types ! link_pos) file_name key] else [])
        @ concat (map (\<lambda>lnk.
            if lnk \<noteq> [] \<and> \<not> file_exists env (get_path_dir env file_name @ ''/'' @ lnk @ ''.tsv'')
            then [msg_no_link lnk file_name key] else [])
          (split (substr link 1 (length link - 2)) CHR '','')))"

text \<open>The block under \<open>if (vc[TSV_LINK] != "")\<close> (lines 134 to 168).\<close>

definition check_links ::
  "grammar_env \<Rightarrow> string \<Rightarrow> string \<Rightarrow> string list \<Rightarrow> string list \<Rightarrow> report" where
  "check_links env file_name key types links =
     (if length links \<noteq> length types then [msg_links_arity file_name key] else [])
     @ concat (map (\<lambda>link_pos. check_link env file_name key types link_pos (links ! link_pos))
         [0 ..< length links])"

text \<open>The loop over \<open>types\<close> of lines 171 to 173.\<close>

definition check_types :: "grammar_env \<Rightarrow> string \<Rightarrow> string \<Rightarrow> string list \<Rightarrow> report" where
  "check_types env file_name key types =
     concat (map (\<lambda>t. if t \<in> set (basic_types env) then [] else [msg_wrong_type t file_name key])
       types)"

text \<open>
  The loop of lines 176 to 182 over the positions \<open>t_pos\<close> that are left: for a complex
  type and a non-empty PossibleValues cell the cell is split and read at \<open>t_pos\<close>, with no
  comparison of \<open>t_pos\<close> with the number of its segments. The boolean is False when that
  read was out of range; the lines written before it stay in the report.
\<close>

fun check_possible ::
  "string \<Rightarrow> string \<Rightarrow> string list \<Rightarrow> string \<Rightarrow> nat list \<Rightarrow> report \<times> bool" where
  "check_possible file_name key types possible [] = ([], True)"
| "check_possible file_name key types possible (t_pos # rest) =
     (if complex_type (types ! t_pos) \<and> possible \<noteq> [] then
        (let def_val = split possible CHR '';'' in
         if length def_val \<le> t_pos then ([], False)
         else
           (let (r, ok) = check_possible file_name key types possible rest in
            ((if def_val ! t_pos \<noteq> ''[]'' then [msg_complex_value possible file_name key] else [])
               @ r, ok)))
      else check_possible file_name key types possible rest)"

text \<open>Lines 185 to 191 and lines 201 to 202.\<close>

definition check_values_arity :: "string \<Rightarrow> string \<Rightarrow> string list \<Rightarrow> string \<Rightarrow> report" where
  "check_values_arity file_name key types possible =
     (if length types > 1 \<and> possible \<noteq> [] \<and> length types \<noteq> length (split possible CHR '';'')
      then [msg_values_arity file_name key] else [])"

definition check_inheritable :: "string \<Rightarrow> string \<Rightarrow> string \<Rightarrow> report" where
  "check_inheritable file_name key inheritable =
     (if inheritable \<noteq> ''TRUE'' \<and> inheritable \<noteq> ''FALSE'' then [msg_inheritable file_name key]
      else [])"

text \<open>
  The body of the loop over the rows (lines 114 to 202) for the row \<open>vc\<close>, with the keys
  \<open>processed\<close> so far. It gives the lines the row adds to the report and the keys processed
  after it, or \<open>None\<close> when a read was out of range: \<open>vc[TSV_KEYNAME]\<close> of an empty row,
  \<open>vc[TSV_TYPE]\<close> ... \<open>vc[TSV_LINK]\<close> of a row of fewer than eleven columns, or the read of
  \<open>def_val[t_pos]\<close>.
\<close>

definition check_row ::
  "grammar_env \<Rightarrow> string \<Rightarrow> string list \<Rightarrow> string list \<Rightarrow> report \<times> string list option" where
  "check_row env file_name processed vc =
     (if length vc \<le> TSV_KEYNAME then ([], None)
      else
        (let key = vc ! TSV_KEYNAME;
             dup = (if key \<in> set processed then [msg_duplicate file_name key] else []);
             processed' = (if key \<in> set processed then processed else processed @ [key])
         in
         if length vc \<le> TSV_LINK then (dup, None)
         else
           (let types = split (vc ! TSV_TYPE) CHR '';'';
                links = split (vc ! TSV_LINK) CHR '';'';
                r_links = (if vc ! TSV_LINK \<noteq> [] then check_links env file_name key types links else []);
                r_types = check_types env file_name key types;
                (r_values, ok) =
                  check_possible file_name key types (vc ! TSV_POSSIBLEVALUES) [0 ..< length types]
            in
            if \<not> ok then (dup @ r_links @ r_types @ r_values, None)
            else
              (dup @ r_links @ r_types @ r_values
                 @ check_values_arity file_name key types (vc ! TSV_POSSIBLEVALUES)
                 @ check_inheritable file_name key (vc ! TSV_INHERITABLE),
               Some processed'))))"

text \<open>The loop \<open>for (size_t i = 1; i < data_list.size(); i++)\<close> over the rows that are left.\<close>

fun check_rows ::
  "grammar_env \<Rightarrow> string \<Rightarrow> string list \<Rightarrow> string list list \<Rightarrow> report \<times> outcome" where
  "check_rows env file_name processed [] = ([], Returned True)"
| "check_rows env file_name processed (vc # rest) =
     (case check_row env file_name processed vc of
        (r, None) \<Rightarrow> (r, Fault OutOfRange)
      | (r, Some processed') \<Rightarrow>
          (let (r', out) = check_rows env file_name processed' rest in (r @ r', out)))"

text \<open>
  The heading of the first line (lines 100 to 104). The comparisons are joined by \<open>||\<close>
  and read the columns from \<open>TSV_KEYNAME\<close> up to \<open>TSV_LINK\<close>, each at its own index, until
  one differs.
\<close>

definition header_names :: "string list" where
  "header_names =
     [''Key'', ''TYPE'', ''SinceVersion'', ''DeprecatedIn'', ''REQUIRED'', ''INDIRECTREFERENCE'',
      ''INHERITABLE'', ''DefaultValue'', ''PossibleValues'', ''SpecialCase'', ''Link'']"

fun wrong_header :: "string list \<Rightarrow> nat \<Rightarrow> string list \<Rightarrow> bool option" where
  "wrong_header vec i [] = Some False"
| "wrong_header vec i (name # names) =
     (if length vec \<le> i then None
      else if vec ! i \<noteq> name then Some True
      else wrong_header vec (Suc i) names)"

definition check :: "grammar_env \<Rightarrow> string \<Rightarrow> string list list \<Rightarrow> report \<times> outcome" where
  "check env file_name data_list =
     (case data_list of
        [] \<Rightarrow> ([''Empty grammar file:'' @ file_name], Returned False)
      | vec # rows \<Rightarrow>
          if length vec < 10 then ([''Wrong number of columns: '' @ file_name], Returned False)
          else
            (case wrong_header vec TSV_KEYNAME header_names of
               None \<Rightarrow> ([], Fault OutOfRange)
             | Some True \<Rightarrow> ([''Wrong headers for columns: '' @ file_name], Returned False)
             | Some False \<Rightarrow> check_rows env file_name [] rows))"

section \<open>gcxml/XMLCreator.java: the XML of one PDF version\<close>

subsection \<open>Java values\<close>

text \<open>
  The exceptions that the modelled code can raise; \<open>HandlerException\<close> stands for an
  exception that a method of the handler throws. \<open>createXML\<close> catches every
  \<open>Exception\<close> outside its loops and writes its file after them, so the model of a loop
  ends at the first exception. The program is run without \<open>-ea\<close> (the Makefile starts
  it with \<open>java -jar\<close>), so its \<open>assert\<close> statements are not evaluated and have no
  counterpart here.
\<close>

datatype jexn =
    NumberFormatException
  | ArrayIndexOutOfBoundsException
  | StringIndexOutOfBoundsException
  | HandlerException string

definition ebind :: "jexn + 'a \<Rightarrow> ('a \<Rightarrow> jexn + 'b) \<Rightarrow> jexn + 'b" where
  "ebind m f = (case m of Inl e \<Rightarrow> Inl e | Inr x \<Rightarrow> f x)"

text \<open>
  The values of \<open>float\<close> as far as \<open><=\<close> sees them: not-a-number, the two infinities and
  the finite values, which are rational numbers. \<open>jle\<close> is \<open><=\<close> on them; it is false as soon
  as one side is not a number. \<open>pdf_ver\<close> is a \<open>double\<close> that holds a parsed \<open>float\<close>, and
  the widening of a \<open>float\<close> keeps its value.
\<close>

datatype jfloat = NaN | NegInf | Fin rat | PosInf

fun jle :: "jfloat \<Rightarrow> jfloat \<Rightarrow> bool" where
  "jle NaN y = False"
| "jle x NaN = False"
| "jle NegInf y = True"
| "jle (Fin a) NegInf = False"
| "jle (Fin a) (Fin b) = (a \<le> b)"
| "jle (Fin a) PosInf = True"
| "jle PosInf NegInf = False"
| "jle PosInf (Fin b) = False"
| "jle PosInf PosInf = True"

text \<open>
  Methods of \<open>String\<close>, on ASCII text. \<open>jsplit\<close> is \<open>split(";")\<close>: the pieces between the
  separators without the empty pieces at the end, and the string itself when it has no
  separator; \<open>split_all\<close> is \<open>split(delimiter, -1)\<close>, which keeps every piece.
\<close>

definition isWhitespace :: "char \<Rightarrow> bool" where
  "isWhitespace c \<longleftrightarrow>
     c \<in> set [CHR 0x09, CHR 0x0A, CHR 0x0B, CHR 0x0C, CHR 0x0D, CHR 0x1C, CHR 0x1D, CHR 0x1E,
       CHR 0x1F, CHR '' '']"

definition isBlank :: "string \<Rightarrow> bool" where
  "isBlank s \<longleftrightarrow> list_all isWhitespace s"

definition startsWith :: "string \<Rightarrow> string \<Rightarrow> bool" where
  "startsWith s p \<longleftrightarrow> take (length p) s = p"

definition tolower :: "char \<Rightarrow> char" where
  "tolower c =
     (case map_of (zip ''ABCDEFGHIJKLMNOPQRSTUVWXYZ'' ''abcdefghijklmnopqrstuvwxyz'') c of
        Some l \<Rightarrow> l
      | None \<Rightarrow> c)"

definition toLowerCase :: "string \<Rightarrow> string" where
  "toLowerCase s = map tolower s"

definition indexOf :: "string \<Rightarrow> char \<Rightarrow> int" where
  "indexOf s c = (if c \<in> set s then int (length (takeWhile (\<lambda>x. x \<noteq> c) s)) else - 1)"

definition substring :: "string \<Rightarrow> int \<Rightarrow> int \<Rightarrow> jexn + string" where
  "substring s beginIndex endIndex =
     (if 0 \<le> beginIndex \<and> beginIndex \<le> endIndex \<and> endIndex \<le> int (length s)
      then Inr (take (nat (endIndex - beginIndex)) (drop (nat beginIndex) s))
      else Inl StringIndexOutOfBoundsException)"

definition split_all :: "string \<Rightarrow> char \<Rightarrow> string list" where
  "split_all s c = split_from c [] s"

definition jsplit :: "string \<Rightarrow> char \<Rightarrow> string list" where
  "jsplit s c =
     (if c \<in> set s then rev (dropWhile (\<lambda>piece. piece = []) (rev (split_from c [] s))) else [s])"

text \<open>Reading \<open>a[i]\<close> of an array, and \<open>a[i] = f(a[i])\<close> for a method \<open>f\<close> that may throw.\<close>

definition column :: "string list \<Rightarrow> nat \<Rightarrow> jexn + string" where
  "column a i = (if i < length a then Inr (a ! i) else Inl ArrayIndexOutOfBoundsException)"

definition update_column :: "(string \<Rightarrow> jexn + string) \<Rightarrow> nat \<Rightarrow> string list \<Rightarrow> jexn + string list" where
  "update_column f i a = ebind (column a i) (\<lambda>c. ebind (f c) (\<lambda>c'. Inr (a[i := c'])))"

subsection \<open>The handler of the TSV fields\<close>

text \<open>
  \<open>TSVHandler\<close> and its inner class \<open>TypeListModifier\<close> are not among the sources. The
  model of \<open>XMLCreator\<close> takes them as they are called: a handler is the record of its four
  methods that \<open>XMLCreator\<close> calls, a modifier the record of its three, and each method that
  returns a string may throw instead. \<open>Float.parseFloat\<close> of the Java library is a parameter
  as well; it gives \<open>None\<close> where it throws its \<open>NumberFormatException\<close>.
\<close>

record TypeListModifier =
  somethingReduced :: bool
  getReducedTypes :: string
  reduceCorresponding :: "string \<Rightarrow> jexn + string"

record TSVHandler =
  reduceTypesForVersion :: "string \<Rightarrow> jfloat \<Rightarrow> jexn + TypeListModifier"
  reduceRequiredForVersion :: "string \<Rightarrow> jfloat \<Rightarrow> jexn + string"
  reduceComplexForVersion :: "string \<Rightarrow> jfloat \<Rightarrow> jexn + string"
  indexOfOuterCloseBracket :: "string \<Rightarrow> int"

subsection \<open>\<open>createNodeValue\<close> and the loops of \<open>nodeValues\<close>\<close>

text \<open>A VALUE element: its type attribute and its text, from which all brackets are removed.\<close>

type_synonym value_node = "string \<times> string"

definition createNodeValue :: "string \<Rightarrow> string \<Rightarrow> value_node" where
  "createNodeValue t v = (t, filter (\<lambda>c. c \<noteq> CHR ''['' \<and> c \<noteq> CHR '']'') v)"

text \<open>
  One turn of \<open>while (!a.isBlank())\<close> for \<open>a\<close> that starts with \<open>fn:\<close> (lines 408 to 429 and,
  word for word, lines 453 to 474): the VALUE made and the \<open>a\<close> that is left.
\<close>

definition predicate_step :: "TSVHandler \<Rightarrow> string \<Rightarrow> string \<Rightarrow> jexn + (value_node \<times> string)" where
  "predicate_step tsv t a =
     (let j = indexOfOuterCloseBracket tsv a in
      ebind (substring a 0 (j + 1)) (\<lambda>s.
      ebind (if j + 2 < int (length a) then substring a (j + 2) (int (length a)) else Inr []) (\<lambda>a'.
      Inr (createNodeValue t s,
           if \<not> isBlank a' \<and> hd a' = CHR '','' then drop 1 a' else a'))))"

text \<open>
  One turn for \<open>a\<close> that does not start with \<open>fn:\<close>. In the loop over a link (lines 431 to
  440) the comma counts when \<open>a.indexOf(',') > 0\<close>, in the loop over a possible value (lines
  476 to 485) when \<open>a.indexOf(',') >= 0\<close>.
\<close>

definition plain_step :: "bool \<Rightarrow> string \<Rightarrow> string \<Rightarrow> value_node \<times> string" where
  "plain_step of_link t a =
     (let k = indexOf a CHR '','' in
      if (if of_link then k > 0 else k \<ge> 0)
      then (createNodeValue t (take (nat k) a), drop (nat k + 1) a)
      else (createNodeValue t a, []))"

definition values_step :: "TSVHandler \<Rightarrow> bool \<Rightarrow> string \<Rightarrow> string \<Rightarrow> jexn + (value_node \<times> string)" where
  "values_step tsv of_link t a =
     (if startsWith a ''fn:'' then predicate_step tsv t a else Inr (plain_step of_link t a))"

lemma not_blank_not_empty: "\<not> isBlank a \<Longrightarrow> a \<noteq> []"
  by (auto simp add: isBlank_def)

lemma predicate_step_shorter:
  assumes "predicate_step tsv t a = Inr (v, a')" and "a \<noteq> []"
  shows "length a' < length a"
proof -
  define j where "j = indexOfOuterCloseBracket tsv a"
  from assms(1) have j: "0 \<le> j + 1"
    by (auto simp add: predicate_step_def j_def Let_def ebind_def substring_def
        split: sum.splits if_splits)
  show ?thesis
  proof (cases "j + 2 < int (length a)")
    case True
    with j have "substring a (j + 2) (int (length a)) = Inr (drop (nat (j + 2)) a)"
      by (simp add: substring_def)
    with assms(1) True have "a' = drop (nat (j + 2)) a \<or> a' = drop 1 (drop (nat (j + 2)) a)"
      by (auto simp add: predicate_step_def j_def[symmetric] Let_def ebind_def
          split: sum.splits if_splits)
    with j True show ?thesis by auto
  next
    case False
    with assms(1) have "a' = []"
      by (auto simp add: predicate_step_def j_def[symmetric] Let_def ebind_def
          split: sum.splits if_splits)
    with assms(2) show ?thesis by simp
  qed
qed

lemma plain_step_shorter:
  assumes "plain_step of_link t a = (v, a')" and "a \<noteq> []"
  shows "length a' < length a"
  using assms by (auto simp add: plain_step_def Let_def split: if_splits)

lemma values_step_shorter:
  assumes "values_step tsv of_link t a = Inr (v, a')" and "\<not> isBlank a"
  shows "length a' < length a"
  using assms predicate_step_shorter[of tsv t a v a'] plain_step_shorter[of of_link t a v a']
    not_blank_not_empty[of a]
  by (auto simp add: values_step_def split: if_splits)

text \<open>The loop \<open>while (!a.isBlank())\<close>: the VALUE elements it appends, in order.\<close>

function values_loop :: "TSVHandler \<Rightarrow> bool \<Rightarrow> string \<Rightarrow> string \<Rightarrow> jexn + value_node list" where
  "values_loop tsv of_link t a =
     (if isBlank a then Inr []
      else
        (case values_step tsv of_link t a of
           Inl e \<Rightarrow> Inl e
         | Inr (v, a') \<Rightarrow>
             (case values_loop tsv of_link t a' of
                Inl e \<Rightarrow> Inl e
              | Inr vs \<Rightarrow> Inr (v # vs))))"
  by pat_completeness auto
termination
  by (relation "measure (\<lambda>(tsv, of_link, t, a). length a)") (auto simp add: values_step_shorter)

declare values_loop.simps [simp del]

subsection \<open>\<open>nodeValues\<close>\<close>

definition needs_link :: "string \<Rightarrow> bool" where
  "needs_link t \<longleftrightarrow>
     t = ''array'' \<or> t = ''dictionary'' \<or> t = ''stream'' \<or> t = ''number-tree'' \<or> t = ''name-tree''"

text \<open>
  The text between the first and the last character of \<open>cells[i]\<close>, as
  \<open>cells[i].substring(1, cells[i].length() - 1)\<close> gives it.
\<close>

definition inner_of :: "string list \<Rightarrow> nat \<Rightarrow> jexn + string" where
  "inner_of cells i = ebind (column cells i) (\<lambda>c. substring c 1 (int (length c) - 1))"

text \<open>
  The default value of a basic type (lines 496 to 507): \<open>dft_values[i].charAt(0)\<close> throws
  on an empty string; the brackets are stripped, and a value of length zero adds nothing.
\<close>

definition default_of :: "string \<Rightarrow> string list \<Rightarrow> nat \<Rightarrow> jexn + value_node list" where
  "default_of t dft_values i =
     ebind (column dft_values i) (\<lambda>d.
       if d = [] then Inl StringIndexOutOfBoundsException
       else
         ebind (if hd d = CHR ''['' then substring d 1 (int (length d) - 1) else Inr d) (\<lambda>d'.
           Inr (if length d' > 0 then [createNodeValue t d'] else [])))"

text \<open>The body of \<open>for (int i = 0; i < types.length; i++)\<close> (lines 392 to 508).\<close>

definition values_of_type ::
  "TSVHandler \<Rightarrow> string list \<Rightarrow> string list \<Rightarrow> string list option \<Rightarrow> string list option \<Rightarrow> nat
     \<Rightarrow> jexn + value_node list" where
  "values_of_type tsv types arr_links pos_values dft_values i =
     (let t = types ! i in
      if needs_link t then ebind (inner_of arr_links i) (values_loop tsv True t)
      else
        ebind
          (case pos_values of
             Some pv \<Rightarrow> ebind (inner_of pv i) (values_loop tsv False t)
           | None \<Rightarrow> Inr [createNodeValue t []])
          (\<lambda>vs.
             case dft_values of
               Some dv \<Rightarrow> ebind (default_of t dv i) (\<lambda>ds. Inr (vs @ ds))
             | None \<Rightarrow> Inr vs))"

fun types_loop ::
  "TSVHandler \<Rightarrow> string list \<Rightarrow> string list \<Rightarrow> string list option \<Rightarrow> string list option \<Rightarrow> nat list
     \<Rightarrow> jexn + value_node list" where
  "types_loop tsv types arr_links pos_values dft_values [] = Inr []"
| "types_loop tsv types arr_links pos_values dft_values (i # rest) =
     ebind (values_of_type tsv types arr_links pos_values dft_values i) (\<lambda>vs.
     ebind (types_loop tsv types arr_links pos_values dft_values rest) (\<lambda>ws. Inr (vs @ ws)))"

definition nodeValues ::
  "TSVHandler \<Rightarrow> string \<Rightarrow> string \<Rightarrow> string \<Rightarrow> string \<Rightarrow> jexn + value_node list" where
  "nodeValues tsv type default_value possible_values links =
     (let types = jsplit type CHR '';'';
          arr_links = jsplit links CHR '';'';
          pos_values = (if \<not> isBlank possible_values then Some (jsplit possible_values CHR '';'') else None);
          dft_values = (if \<not> isBlank default_value then Some (jsplit default_value CHR '';'') else None)
      in types_loop tsv types arr_links pos_values dft_values [0 ..< length types])"

subsection \<open>The other elements of an entry\<close>

text \<open>
  \<open>nodeName\<close>, \<open>nodeIntroduced\<close> and \<open>nodeDeprecated\<close> wrap the column as it is. The
  elements are given by their texts; an INDIRECT_REFERENCE has one text node for each turn of
  its loop, a SPECIAL_CASE has a text node only for a special case that is not blank.
\<close>

definition nodeRequired :: "string \<Rightarrow> string" where
  "nodeRequired col_value = (if \<not> startsWith col_value ''fn:'' then toLowerCase col_value else col_value)"

fun indirect_loop :: "string \<Rightarrow> string list \<Rightarrow> jexn + string list" where
  "indirect_loop col_value [] = Inr []"
| "indirect_loop col_value (ir # rest) =
     ebind (substring ir 1 (int (length ir) - 1)) (\<lambda>stripped.
     ebind (indirect_loop col_value rest) (\<lambda>texts. Inr (toLowerCase col_value # texts)))"

definition nodeIndirectReference :: "string \<Rightarrow> jexn + string list" where
  "nodeIndirectReference col_value =
     (if startsWith col_value ''fn:'' then Inr [col_value]
      else if col_value = ''TRUE'' \<or> col_value = ''FALSE'' then Inr [toLowerCase col_value]
      else indirect_loop col_value (jsplit col_value CHR '';''))"

definition nodeInheritable :: "string \<Rightarrow> string" where
  "nodeInheritable col_value = toLowerCase col_value"

definition nodeSpecialCase :: "string \<Rightarrow> string option" where
  "nodeSpecialCase col_value = (if \<not> isBlank col_value then Some col_value else None)"

record entry =
  NAME :: string
  VALUES :: "value_node list"
  REQUIRED :: string
  INDIRECT_REFERENCE :: "string list"
  INHERITABLE :: string
  INTRODUCED :: string
  DEPRECATED :: string
  SPECIAL_CASE :: "string option"

subsection \<open>\<open>createXML\<close>: the rows of one TSV file\<close>

text \<open>
  Lines 141 to 149: only when the modifier says that something was reduced is the type
  column replaced and are the IndirectReference, DefaultValue and SpecialCase columns passed
  through its \<open>reduceCorresponding\<close>.
\<close>

definition reduce_by_types :: "TypeListModifier \<Rightarrow> string list \<Rightarrow> jexn + string list" where
  "reduce_by_types types_reduced column_values =
     (if somethingReduced types_reduced then
        ebind (update_column (\<lambda>c. Inr (getReducedTypes types_reduced)) 1 column_values) (\<lambda>cv.
        ebind (update_column (reduceCorresponding types_reduced) 5 cv) (\<lambda>cv.
        ebind (update_column (reduceCorresponding types_reduced) 7 cv) (\<lambda>cv.
        update_column (reduceCorresponding types_reduced) 9 cv)))
      else Inr column_values)"

text \<open>
  Lines 140 to 152: the columns of a kept row after the reductions. The Required column,
  and the PossibleValues and Links columns, are always passed through the handler's own
  methods, which get the column and the version.
\<close>

definition reduce_columns :: "TSVHandler \<Rightarrow> jfloat \<Rightarrow> string list \<Rightarrow> jexn + string list" where
  "reduce_columns tsv pdf_ver column_values =
     ebind (column column_values 1) (\<lambda>types.
     ebind (reduceTypesForVersion tsv types pdf_ver) (\<lambda>types_reduced.
     ebind (reduce_by_types types_reduced column_values) (\<lambda>cv.
     ebind (update_column (\<lambda>c. reduceRequiredForVersion tsv c pdf_ver) 4 cv) (\<lambda>cv.
     ebind (update_column (\<lambda>c. reduceComplexForVersion tsv c pdf_ver) 8 cv) (\<lambda>cv.
     update_column (\<lambda>c. reduceComplexForVersion tsv c pdf_ver) 10 cv)))))"

text \<open>
  Lines 154 to 188: the elements of the entry, from the columns after the reductions, of
  which there are eleven at least. Each of the \<open>node...\<close> methods returns an element or
  throws, so the test that none of them is null always holds and the entry is appended.
\<close>

definition entry_of :: "TSVHandler \<Rightarrow> string list \<Rightarrow> jexn + entry" where
  "entry_of tsv column_values =
     ebind (nodeIndirectReference (column_values ! 5)) (\<lambda>indirect.
     ebind (nodeValues tsv (column_values ! 1) (column_values ! 7) (column_values ! 8) (column_values ! 10))
       (\<lambda>vals.
     Inr \<lparr>NAME = column_values ! 0, VALUES = vals, REQUIRED = nodeRequired (column_values ! 4),
          INDIRECT_REFERENCE = indirect, INHERITABLE = nodeInheritable (column_values ! 6),
          INTRODUCED = column_values ! 2, DEPRECATED = column_values ! 3,
          SPECIAL_CASE = nodeSpecialCase (column_values ! 9)\<rparr>))"

text \<open>
  \<open>current_entry\<close> and \<open>current_entry_version\<close> of a line (lines 128 to 133): the first
  column, which every line has, and the parsed third column.
\<close>

definition current_entry :: "char \<Rightarrow> string \<Rightarrow> string" where
  "current_entry delimiter current_line = split_all current_line delimiter ! 0"

definition current_entry_version :: "(string \<Rightarrow> jfloat option) \<Rightarrow> char \<Rightarrow> string \<Rightarrow> jexn + jfloat" where
  "current_entry_version parseFloat delimiter current_line =
     ebind (column (split_all current_line delimiter) 2) (\<lambda>s.
       case parseFloat s of None \<Rightarrow> Inl NumberFormatException | Some v \<Rightarrow> Inr v)"

text \<open>
  The body of the loop over the rows (lines 128 to 192): the entry appended to the OBJECT
  element, or \<open>None\<close> for a dropped key.
\<close>

definition createEntry ::
  "TSVHandler \<Rightarrow> (string \<Rightarrow> jfloat option) \<Rightarrow> char \<Rightarrow> jfloat \<Rightarrow> string \<Rightarrow> jexn + entry option" where
  "createEntry tsv parseFloat delimiter pdf_ver current_line =
     ebind (current_entry_version parseFloat delimiter current_line) (\<lambda>version.
       if jle version pdf_ver then
         ebind (reduce_columns tsv pdf_ver (split_all current_line delimiter)) (\<lambda>cv.
         ebind (entry_of tsv cv) (\<lambda>e. Inr (Some e)))
       else Inr None)"

text \<open>
  \<open>while ((current_line = tsv_reader.readLine()) != null)\<close> over the lines that are left,
  and the OBJECT element of a file, whose first line, the heading, is read and dropped
  before the loop.
\<close>

fun rows_loop ::
  "TSVHandler \<Rightarrow> (string \<Rightarrow> jfloat option) \<Rightarrow> char \<Rightarrow> jfloat \<Rightarrow> string list \<Rightarrow> jexn + entry list" where
  "rows_loop tsv parseFloat delimiter pdf_ver [] = Inr []"
| "rows_loop tsv parseFloat delimiter pdf_ver (current_line # rest) =
     ebind (createEntry tsv parseFloat delimiter pdf_ver current_line) (\<lambda>e.
     ebind (rows_loop tsv parseFloat delimiter pdf_ver rest) (\<lambda>es.
       Inr (case e of None \<Rightarrow> es | Some x \<Rightarrow> x # es)))"

definition createObject ::
  "TSVHandler \<Rightarrow> (string \<Rightarrow> jfloat option) \<Rightarrow> char \<Rightarrow> jfloat \<Rightarrow> string list \<Rightarrow> jexn + entry list" where
  "createObject tsv parseFloat delimiter pdf_ver lines =
     rows_loop tsv parseFloat delimiter pdf_ver (drop 1 lines)"

section \<open>Sample grammar data\<close>

text \<open>
  Concrete files, rows and parameters on which the models are run. They are inputs, not
  part of the programs: the lines are TSV lines with the tab as delimiter, and the rows of
  the self-check are rows as \<open>load\<close> stores them.
\<close>

abbreviation (input) TAB :: char where "TAB \<equiv> CHR 0x09"

definition header_line :: string where
  "header_line = ''Key'' @ TAB # ''Type'' @ TAB # ''SinceVersion'' @ TAB # ''DeprecatedIn'' @ TAB #
     ''Required'' @ TAB # ''IndirectReference'' @ TAB # ''Inheritable'' @ TAB # ''DefaultValue'' @ TAB #
     ''PossibleValues'' @ TAB # ''SpecialCase'' @ TAB # ''Link''"

definition swapped_header_line :: string where
  "swapped_header_line = ''SinceVersion'' @ TAB # ''Type'' @ TAB # ''Key'' @ TAB # ''DeprecatedIn'' @ TAB #
     ''Required'' @ TAB # ''IndirectReference'' @ TAB # ''Inheritable'' @ TAB # ''DefaultValue'' @ TAB #
     ''PossibleValues'' @ TAB # ''SpecialCase'' @ TAB # ''Link''"

definition predicate_line :: string where
  "predicate_line = ''Parent'' @ TAB # ''dictionary'' @ TAB # ''1.0'' @ TAB # '''' @ TAB #
     ''fn:IsRequired(fn:IsPresent(Kids))'' @ TAB # ''fn:MustBeDirect()'' @ TAB # ''false'' @ TAB # '''' @ TAB #
     '''' @ TAB # '''' @ TAB # ''[PageTreeNode]''"

definition catalog_file :: string where
  "catalog_file = ''tsv/Catalog.tsv''"

definition sample_env :: grammar_env where
  "sample_env =
     \<lparr>file_exists = (\<lambda>name. True), get_path_dir = (\<lambda>name. ''tsv''),
      basic_types = [''ARRAY'', ''BOOLEAN'', ''DICTIONARY'', ''NAME'', ''NUMBER'', ''STRING'']\<rparr>"

definition row_two_types_one_value :: "string list" where
  "row_two_types_one_value =
     [''Dests'', ''ARRAY;DICTIONARY'', ''1.1'', '''', ''FALSE'', ''FALSE'', ''FALSE'', '''', ''[]'', '''',
      ''[ArrayOfDests];[DestsDict]'']"


definition row_unknown_type :: "string list" where
  "row_unknown_type =
     [''Version'', ''TEXT'', ''1.4'', '''', ''FALSE'', ''FALSE'', ''maybe'', '''', '''', '''', '''']"

definition row_ten_columns :: "string list" where
  "row_ten_columns =
     [''Type'', ''NAME'', ''1.0'', '''', ''TRUE'', ''FALSE'', ''FALSE'', '''', ''[Catalog]'', '''']"

text \<open>
  A handler for rows that carry no predicate, in which there is nothing to reduce: every
  reducing method gives its field back. The scan for a closing parenthesis is not called on
  such rows; it answers that there is none. \<open>parse_version\<close> stands for
  \<open>Float.parseFloat\<close> on the three version strings of the sample file, whose values a
  \<open>float\<close> holds exactly.
\<close>

definition plain_tsv :: TSVHandler where
  "plain_tsv =
     \<lparr>reduceTypesForVersion = (\<lambda>types pdf_ver.
        Inr \<lparr>somethingReduced = False, getReducedTypes = types, reduceCorresponding = Inr\<rparr>),
      reduceRequiredForVersion = (\<lambda>required pdf_ver. Inr required),
      reduceComplexForVersion = (\<lambda>field pdf_ver. Inr field),
      indexOfOuterCloseBracket = (\<lambda>a. - 1)\<rparr>"

definition parse_version :: "string \<Rightarrow> jfloat option" where
  "parse_version = map_of [(''1.0'', Fin 1), (''1.5'', Fin (3 / 2)), (''2.0'', Fin 2)]"

definition catalog_lines :: "string list" where
  "catalog_lines =
     [''Key'' @ TAB # ''Type'' @ TAB # ''SinceVersion'' @ TAB # ''DeprecatedIn'' @ TAB #
        ''Required'' @ TAB # ''IndirectReference'' @ TAB # ''Inheritable'' @ TAB # ''DefaultValue'' @ TAB #
        ''PossibleValues'' @ TAB # ''SpecialCase'' @ TAB # ''Link'' @ TAB # ''Note'',
      ''Type'' @ TAB # ''name'' @ TAB # ''1.0'' @ TAB # '''' @ TAB # ''TRUE'' @ TAB # ''FALSE'' @ TAB #
        ''FALSE'' @ TAB # '''' @ TAB # ''[Catalog]'' @ TAB # '''' @ TAB # ''[]'' @ TAB # '''',
      ''DSS'' @ TAB # ''dictionary'' @ TAB # ''2.0'' @ TAB # '''' @ TAB # ''FALSE'' @ TAB # ''FALSE'' @ TAB #
        ''FALSE'' @ TAB # '''' @ TAB # '''' @ TAB # '''' @ TAB # ''[DSS]'' @ TAB # '''',
      ''Metadata'' @ TAB # ''stream'' @ TAB # ''1.5'' @ TAB # '''' @ TAB # ''FALSE'' @ TAB # ''TRUE'' @ TAB #
        ''FALSE'' @ TAB # '''' @ TAB # '''' @ TAB # '''' @ TAB # ''[Metadata]'' @ TAB # '''',
      ''Pages'' @ TAB # ''dictionary'' @ TAB # ''1.0'' @ TAB # '''' @ TAB # ''TRUE'' @ TAB # ''TRUE'' @ TAB #
        ''FALSE'' @ TAB # '''' @ TAB # '''' @ TAB # '''' @ TAB # ''[PageTreeNodeRoot]'' @ TAB # '''']"

section \<open>Properties of the loader\<close>

subsection \<open>What \<open>load\<close> stores\<close>

lemma load_lines_data:
  "load_lines d lines data = Inr (True, data') \<Longrightarrow>
     data' = data @ map (\<lambda>line. upper_fields (split_line line d)) lines"
proof (induction lines arbitrary: data)
  case Nil
  then show ?case by simp
next
  case (Cons line rest)
  then show ?case
    using Cons.IH[of "data @ [upper_fields (split_line line d)]"]
    by (auto simp add: Let_def split: if_splits)
qed

lemma upper_fields_length: "length (upper_fields vec) = length vec"
  by (simp add: upper_fields_def upper_field_def)

lemma upper_fields_nth:
  "k < length vec \<Longrightarrow>
   upper_fields vec ! k =
     (if k \<in> {TSV_TYPE, TSV_REQUIRED, TSV_INDIRECTREF, TSV_INHERITABLE}
      then map toupper (vec ! k) else vec ! k)"
  by (auto simp add: upper_fields_def upper_field_def TSV_defs nth_list_update)

lemma split_header_line:
  "split_line header_line TAB =
     [''Key'', ''Type'', ''SinceVersion'', ''DeprecatedIn'', ''Required'', ''IndirectReference'',
      ''Inheritable'', ''DefaultValue'', ''PossibleValues'', ''SpecialCase'', ''Link'']"
  by (simp add: header_line_def split_line_def)

lemma split_swapped_header_line:
  "split_line swapped_header_line TAB =
     [''SinceVersion'', ''Type'', ''Key'', ''DeprecatedIn'', ''Required'', ''IndirectReference'',
      ''Inheritable'', ''DefaultValue'', ''PossibleValues'', ''SpecialCase'', ''Link'']"
  by (simp add: swapped_header_line_def split_line_def)

lemma split_predicate_line:
  "split_line predicate_line TAB =
     [''Parent'', ''dictionary'', ''1.0'', '''', ''fn:IsRequired(fn:IsPresent(Kids))'',
      ''fn:MustBeDirect()'', ''false'', '''', '''', '''', ''[PageTreeNode]'']"
  by (simp add: predicate_line_def split_line_def)

lemma load_sample:
  "load TAB (Some [header_line, predicate_line]) =
     Inr (True,
       [[''Key'', ''TYPE'', ''SinceVersion'', ''DeprecatedIn'', ''REQUIRED'', ''INDIRECTREFERENCE'',
         ''INHERITABLE'', ''DefaultValue'', ''PossibleValues'', ''SpecialCase'', ''Link''],
        [''Parent'', ''DICTIONARY'', ''1.0'', '''', ''FN:ISREQUIRED(FN:ISPRESENT(KIDS))'',
         ''FN:MUSTBEDIRECT()'', ''FALSE'', '''', '''', '''', ''[PageTreeNode]'']])"
  by (simp add: load_def split_header_line split_predicate_line upper_fields_def upper_field_def
      toupper_def TSV_defs)

text \<open>
  Claim C4, as the code has it: every row that \<open>load\<close> stores has as many columns as the
  line it was read from; its type, required, indirect-reference and inheritable fields are the
  upper-cased copies of the whole fields read, whether or not a field starts with \<open>fn:\<close>, and
  every other field is stored as it was read.
\<close>

theorem load_upper_cases_whole_fields:
  assumes "load d (Some lines) = Inr (True, data_list)" and "i < length lines"
  shows "length data_list = length lines
    \<and> length (data_list ! i) = length (split_line (lines ! i) d)
    \<and> (\<forall>k < length (split_line (lines ! i) d).
          data_list ! i ! k =
            (if k \<in> {TSV_TYPE, TSV_REQUIRED, TSV_INDIRECTREF, TSV_INHERITABLE}
             then map toupper (split_line (lines ! i) d ! k)
             else split_line (lines ! i) d ! k))"
proof -
  have "data_list = map (\<lambda>line. upper_fields (split_line line d)) lines"
    using assms(1) load_lines_data[of d lines "[]" data_list] by (simp add: load_def)
  with assms(2) show ?thesis
    by (simp add: upper_fields_length upper_fields_nth)
qed

text \<open>
  The theorem of claim C4 at a file of a heading and one row: the row's required field is
  stored as the upper-cased predicate.
\<close>

theorem load_upper_cases_whole_fields_witness:
  "(\<exists>data_list. load TAB (Some [header_line, predicate_line]) = Inr (True, data_list)
      \<and> length data_list = 2
      \<and> data_list ! 1 ! TSV_REQUIRED = map toupper ''fn:IsRequired(fn:IsPresent(Kids))'')
   \<and> (1::nat) < length [header_line, predicate_line]"
proof -
  obtain data_list where l: "load TAB (Some [header_line, predicate_line]) = Inr (True, data_list)"
    using load_sample by simp
  have n: "(1::nat) < length [header_line, predicate_line]" by simp
  from load_upper_cases_whole_fields[OF l n]
  have "length data_list = 2 \<and> data_list ! 1 ! TSV_REQUIRED = map toupper ''fn:IsRequired(fn:IsPresent(Kids))''"
    by (simp add: split_predicate_line TSV_defs)
  with l n show ?thesis by blast
qed

text \<open>
  Claim C4 as stated fails: the row read has the predicates \<open>fn:IsRequired(fn:IsPresent(Kids))\<close>
  and \<open>fn:MustBeDirect()\<close> in its required and indirect-reference fields, and the row stored
  has them in upper case, not character for character.
\<close>

theorem load_predicate_upper_cased:
  "split_line predicate_line TAB ! TSV_REQUIRED = ''fn:IsRequired(fn:IsPresent(Kids))''
   \<and> split_line predicate_line TAB ! TSV_INDIRECTREF = ''fn:MustBeDirect()''
   \<and> load TAB (Some [header_line, predicate_line]) =
     Inr (True,
       [[''Key'', ''TYPE'', ''SinceVersion'', ''DeprecatedIn'', ''REQUIRED'', ''INDIRECTREFERENCE'',
         ''INHERITABLE'', ''DefaultValue'', ''PossibleValues'', ''SpecialCase'', ''Link''],
        [''Parent'', ''DICTIONARY'', ''1.0'', '''', ''FN:ISREQUIRED(FN:ISPRESENT(KIDS))'',
         ''FN:MUSTBEDIRECT()'', ''FALSE'', '''', '''', '''', ''[PageTreeNode]'']])"
  by (simp add: load_sample split_predicate_line TSV_defs)

text \<open>
  Claim C10: on a file that cannot be opened and on a file without lines \<open>load\<close> returns
  true with an empty \<open>data_list\<close>; it is \<open>check\<close> that, on the empty \<open>data_list\<close>, writes
  "Empty grammar file:" with the file name and returns false.
\<close>

theorem load_nothing_then_check_empty:
  "load d None = Inr (True, [])
   \<and> load d (Some []) = Inr (True, [])
   \<and> check env file_name [] = ([''Empty grammar file:'' @ file_name], Returned False)"
  by (simp add: load_def check_def)

subsection \<open>The heading\<close>

lemma check_rows_not_false: "snd (check_rows env f processed rows) \<noteq> Returned False"
proof (induction rows arbitrary: processed)
  case Nil
  show ?case by simp
next
  case (Cons vc rest)
  show ?case
  proof (cases "check_row env f processed vc")
    case (Pair r p)
    show ?thesis
    proof (cases p)
      case None
      with Pair show ?thesis by simp
    next
      case (Some processed')
      with Pair Cons.IH[of processed'] show ?thesis
        by (auto split: prod.splits)
    qed
  qed
qed

lemma wrong_header_iff:
  "i + length names \<le> length vec \<Longrightarrow>
   wrong_header vec i names = Some (take (length names) (drop i vec) \<noteq> names)"
proof (induction names arbitrary: i)
  case Nil
  then show ?case by simp
next
  case (Cons name names)
  then have "drop i vec = vec ! i # drop (Suc i) vec"
    by (simp add: Cons_nth_drop_Suc)
  with Cons show ?case by auto
qed

lemma length_header_names: "length header_names = TSV_NOTES"
  by (simp add: header_names_def TSV_NOTES_def)

text \<open>
  Claim C5, as the code has it: \<open>load\<close> returns false, storing nothing, when the first line
  has fewer than eleven columns, and accepts a first line of eleven or more columns whatever
  their names; the names are compared by \<open>check\<close>, each at its own column: on a heading of
  eleven or more columns \<open>check\<close> writes "Wrong headers for columns" and returns false
  exactly when the first eleven columns are not the eleven names in their fixed order.
\<close>

theorem header_checked_by_position:
  "(length (split_line hdr d) < TSV_NOTES \<longrightarrow> load d (Some (hdr # rest)) = Inr (False, []))
   \<and> (TSV_NOTES \<le> length (split_line hdr d) \<longrightarrow>
        load d (Some [hdr]) = Inr (True, [upper_fields (split_line hdr d)]))
   \<and> (TSV_NOTES \<le> length vec \<longrightarrow>
        (check env file_name (vec # rows) = ([''Wrong headers for columns: '' @ file_name], Returned False))
          = (take TSV_NOTES vec \<noteq> header_names))"
proof (intro conjI impI)
  assume "length (split_line hdr d) < TSV_NOTES"
  then show "load d (Some (hdr # rest)) = Inr (False, [])"
    by (simp add: load_def)
next
  assume "TSV_NOTES \<le> length (split_line hdr d)"
  then show "load d (Some [hdr]) = Inr (True, [upper_fields (split_line hdr d)])"
    by (simp add: load_def TSV_defs)
next
  assume n: "TSV_NOTES \<le> length vec"
  then have "0 + length header_names \<le> length vec"
    by (simp add: length_header_names)
  from wrong_header_iff[OF this]
  have w: "wrong_header vec TSV_KEYNAME header_names = Some (take TSV_NOTES vec \<noteq> header_names)"
    by (simp add: length_header_names TSV_KEYNAME_def)
  have m: "\<not> length vec < 10"
    using n by (simp add: TSV_NOTES_def)
  show "(check env file_name (vec # rows) = ([''Wrong headers for columns: '' @ file_name], Returned False))
          = (take TSV_NOTES vec \<noteq> header_names)"
  proof (cases "take TSV_NOTES vec = header_names")
    case True
    have "snd (check env file_name (vec # rows)) \<noteq> Returned False"
      using m w True check_rows_not_false[of env file_name "[]" rows]
      by (simp add: check_def)
    with True show ?thesis by auto
  next
    case False
    with m w show ?thesis by (simp add: check_def)
  qed
qed

text \<open>
  The theorem of claim C5 at a first line of one column, which \<open>load\<close> refuses, and at the
  heading whose first and third names are exchanged, which \<open>load\<close> stores and \<open>check\<close>
  refuses.
\<close>

theorem header_checked_by_position_witness:
  "length (split_line ''Key'' TAB) < TSV_NOTES
   \<and> load TAB (Some [''Key'', predicate_line]) = Inr (False, [])
   \<and> TSV_NOTES \<le> length (split_line swapped_header_line TAB)
   \<and> load TAB (Some [swapped_header_line]) = Inr (True, [upper_fields (split_line swapped_header_line TAB)])
   \<and> TSV_NOTES \<le> length (upper_fields (split_line swapped_header_line TAB))
   \<and> take TSV_NOTES (upper_fields (split_line swapped_header_line TAB)) \<noteq> header_names
   \<and> check sample_env catalog_file [upper_fields (split_line swapped_header_line TAB)]
       = ([''Wrong headers for columns: '' @ catalog_file], Returned False)"
proof -
  have a: "length (split_line ''Key'' TAB) < TSV_NOTES"
    by (simp add: split_line_def TSV_defs)
  have b: "TSV_NOTES \<le> length (split_line swapped_header_line TAB)"
    by (simp add: split_swapped_header_line TSV_defs)
  have c: "TSV_NOTES \<le> length (upper_fields (split_line swapped_header_line TAB))"
    using b by (simp add: upper_fields_length)
  have d: "take TSV_NOTES (upper_fields (split_line swapped_header_line TAB)) \<noteq> header_names"
    by (simp add: split_swapped_header_line upper_fields_def upper_field_def TSV_defs header_names_def)
  note t = header_checked_by_position[where hdr = "''Key''" and d = TAB and rest = "[predicate_line]"]
  note u = header_checked_by_position[where hdr = swapped_header_line and d = TAB
      and vec = "upper_fields (split_line swapped_header_line TAB)" and env = sample_env
      and file_name = catalog_file and rows = "[]"]
  from t a have 1: "load TAB (Some [''Key'', predicate_line]) = Inr (False, [])" by blast
  from u b have 2: "load TAB (Some [swapped_header_line]) = Inr (True, [upper_fields (split_line swapped_header_line TAB)])"
    by blast
  from u c d have 3: "check sample_env catalog_file [upper_fields (split_line swapped_header_line TAB)]
       = ([''Wrong headers for columns: '' @ catalog_file], Returned False)"
    by simp
  from a b c d 1 2 3 show ?thesis by blast
qed

text \<open>
  Claim C5 as stated fails: the heading with SinceVersion in the first and Key in the third
  column has exactly the eleven names of the heading, in another order; \<open>load\<close> returns true
  on it, and \<open>check\<close> on what \<open>load\<close> stored writes "Wrong headers for columns" and
  returns false.
\<close>

theorem permuted_header_rejected:
  "set (split_line swapped_header_line TAB) = set (split_line header_line TAB)
   \<and> load TAB (Some [swapped_header_line]) =
       Inr (True, [[''SinceVersion'', ''TYPE'', ''Key'', ''DeprecatedIn'', ''REQUIRED'',
         ''INDIRECTREFERENCE'', ''INHERITABLE'', ''DefaultValue'', ''PossibleValues'', ''SpecialCase'', ''Link'']])
   \<and> check sample_env catalog_file
         [[''SinceVersion'', ''TYPE'', ''Key'', ''DeprecatedIn'', ''REQUIRED'',
           ''INDIRECTREFERENCE'', ''INHERITABLE'', ''DefaultValue'', ''PossibleValues'', ''SpecialCase'', ''Link'']]
       = ([''Wrong headers for columns: tsv/Catalog.tsv''], Returned False)"
proof (intro conjI)
  show "set (split_line swapped_header_line TAB) = set (split_line header_line TAB)"
    by (simp add: split_swapped_header_line split_header_line insert_commute)
  show "load TAB (Some [swapped_header_line]) =
       Inr (True, [[''SinceVersion'', ''TYPE'', ''Key'', ''DeprecatedIn'', ''REQUIRED'',
         ''INDIRECTREFERENCE'', ''INHERITABLE'', ''DefaultValue'', ''PossibleValues'', ''SpecialCase'', ''Link'']])"
    by (simp add: load_def split_swapped_header_line upper_fields_def upper_field_def toupper_def TSV_defs)
  show "check sample_env catalog_file
         [[''SinceVersion'', ''TYPE'', ''Key'', ''DeprecatedIn'', ''REQUIRED'',
           ''INDIRECTREFERENCE'', ''INHERITABLE'', ''DefaultValue'', ''PossibleValues'', ''SpecialCase'', ''Link'']]
       = ([''Wrong headers for columns: tsv/Catalog.tsv''], Returned False)"
    by (simp add: check_def header_names_def catalog_file_def TSV_defs)
qed

section \<open>Properties of the self-check\<close>

lemmas msg_defs = msg_duplicate_def msg_links_arity_def msg_link_pattern_def msg_not_linked_def
  msg_no_link_def msg_wrong_type_def msg_complex_value_def msg_values_arity_def msg_inheritable_def

lemmas check_eval = check_def check_row_def check_links_def check_link_def check_types_def
  check_values_arity_def check_inheritable_def complex_type_def regex_match_def link_char_def
  substr_def split_def header_names_def msg_defs TSV_defs Let_def

subsection \<open>The line on the number of links\<close>








subsection \<open>The rows that the loop reaches\<close>










subsection \<open>Reads out of range\<close>

text \<open>
  Claim C9, at a row of the types ARRAY and DICTIONARY whose PossibleValues cell \<open>[]\<close> has one
  segment: for the second type the loop reads \<open>def_val[1]\<close> of a vector of size one. The
  read is out of range, and \<open>check\<close> ends there.
\<close>

theorem possible_values_read_out_of_range:
  "length (split (row_two_types_one_value ! TSV_POSSIBLEVALUES) CHR '';'') = 1
   \<and> check_possible file_name ''Dests'' [''ARRAY'', ''DICTIONARY''] ''[]'' [0 ..< 2] = ([], False)
   \<and> snd (check_row env file_name processed row_two_types_one_value) = None
   \<and> snd (check env file_name [header_names, row_two_types_one_value]) = Fault OutOfRange"
  by (simp add: row_two_types_one_value_def check_def check_row_def complex_type_def split_def
      header_names_def TSV_defs Let_def upt_conv_Cons split: prod.splits)

text \<open>
  Claim C6, at a grammar whose heading is the eleven names, whose first row has ten columns
  and whose second row has an unknown type: \<open>check\<close> reads \<open>vc[TSV_LINK]\<close> of the first row
  out of range and ends there, with nothing in the report; the two lines that it writes for
  the second row when that row stands alone are not written.
\<close>

theorem check_stops_at_short_row:
  "check sample_env catalog_file [header_names, row_ten_columns, row_unknown_type] = ([], Fault OutOfRange)
   \<and> check sample_env catalog_file [header_names, row_unknown_type] =
       ([''Wrong type:TEXT in:tsv/Catalog.tsv::Version'', ''tsv/Catalog.tsv::Version''], Returned True)"
  by (simp add: row_ten_columns_def row_unknown_type_def catalog_file_def sample_env_def check_eval
      upt_conv_Cons)

section \<open>Properties of the version reduction in \<open>createXML\<close>\<close>

subsection \<open>Which rows are kept\<close>

lemma jle_trans: "jle a b \<Longrightarrow> jle b c \<Longrightarrow> jle a c"
  by (cases a; cases b; cases c) auto

lemma update_column_Inr:
  assumes "update_column f i a = Inr a'"
  shows "length a' = length a \<and> i < length a \<and> (\<forall>k. k \<noteq> i \<longrightarrow> a' ! k = a ! k)"
  using assms
  by (auto simp add: update_column_def column_def ebind_def split: if_splits sum.splits)

lemma reduce_by_types_Inr:
  assumes "reduce_by_types tr cv = Inr cv'"
  shows "length cv' = length cv \<and> cv' ! 0 = cv ! 0"
proof (cases "somethingReduced tr")
  case False
  with assms show ?thesis by (simp add: reduce_by_types_def)
next
  case True
  with assms obtain x y z where
    "update_column (\<lambda>c. Inr (getReducedTypes tr)) 1 cv = Inr x"
    "update_column (reduceCorresponding tr) 5 x = Inr y"
    "update_column (reduceCorresponding tr) 7 y = Inr z"
    "update_column (reduceCorresponding tr) 9 z = Inr cv'"
    by (auto simp add: reduce_by_types_def ebind_def split: sum.splits)
  then show ?thesis
    by (auto dest!: update_column_Inr)
qed

lemma reduce_columns_Inr:
  assumes "reduce_columns tsv v cv = Inr cv'"
  shows "length cv' = length cv \<and> 10 < length cv \<and> cv' ! 0 = cv ! 0"
proof -
  from assms obtain tr c1 c2 c3 where
    a: "reduce_by_types tr cv = Inr c1"
    and b: "update_column (\<lambda>c. reduceRequiredForVersion tsv c v) 4 c1 = Inr c2"
    and c: "update_column (\<lambda>c. reduceComplexForVersion tsv c v) 8 c2 = Inr c3"
    and d: "update_column (\<lambda>c. reduceComplexForVersion tsv c v) 10 c3 = Inr cv'"
    by (auto simp add: reduce_columns_def ebind_def split: sum.splits)
  from reduce_by_types_Inr[OF a] update_column_Inr[OF b] update_column_Inr[OF c] update_column_Inr[OF d]
  show ?thesis by auto
qed

lemma entry_of_NAME: "entry_of tsv cv = Inr e \<Longrightarrow> NAME e = cv ! 0"
  by (auto simp add: entry_of_def ebind_def split: sum.splits)

lemma createEntry_Some:
  assumes "createEntry tsv pf d v line = Inr (Some e)"
  shows "NAME e = current_entry d line
     \<and> (\<exists>version. current_entry_version pf d line = Inr version \<and> jle version v)"
  using assms
  by (auto simp add: createEntry_def ebind_def current_entry_def
      split: sum.splits if_splits dest!: reduce_columns_Inr entry_of_NAME)

lemma createEntry_None:
  assumes "createEntry tsv pf d v line = Inr None"
  shows "\<exists>version. current_entry_version pf d line = Inr version \<and> \<not> jle version v"
  using assms
  by (auto simp add: createEntry_def ebind_def split: sum.splits if_splits)

lemma rows_loop_names:
  "rows_loop tsv pf d v lines = Inr es \<Longrightarrow>
     map NAME es = map (current_entry d)
       (filter (\<lambda>line. case current_entry_version pf d line of
                  Inr version \<Rightarrow> jle version v | Inl e \<Rightarrow> False) lines)"
proof (induction lines arbitrary: es)
  case Nil
  then show ?case by simp
next
  case (Cons line rest)
  from Cons.prems obtain e es' where
    e: "createEntry tsv pf d v line = Inr e" and
    r: "rows_loop tsv pf d v rest = Inr es'" and
    es: "es = (case e of None \<Rightarrow> es' | Some x \<Rightarrow> x # es')"
    by (auto simp add: ebind_def split: sum.splits)
  note ih = Cons.IH[OF r]
  show ?case
  proof (cases e)
    case None
    with e createEntry_None[of tsv pf d v line] es ih show ?thesis by auto
  next
    case (Some x)
    with e createEntry_Some[of tsv pf d v line x] es ih show ?thesis by auto
  qed
qed

lemma rows_loop_versions:
  "rows_loop tsv pf d v lines = Inr es \<Longrightarrow> line \<in> set lines \<Longrightarrow>
     \<exists>version. current_entry_version pf d line = Inr version"
proof (induction lines arbitrary: es)
  case Nil
  then show ?case by simp
next
  case (Cons l rest)
  from Cons.prems(1) obtain e es' where
    e: "createEntry tsv pf d v l = Inr e" and
    r: "rows_loop tsv pf d v rest = Inr es'"
    by (auto simp add: ebind_def split: sum.splits)
  from e have "\<exists>version. current_entry_version pf d l = Inr version"
    using createEntry_None[of tsv pf d v l] createEntry_Some[of tsv pf d v l]
    by (cases e) auto
  with Cons.IH[OF r] Cons.prems(2) show ?case by auto
qed

lemma sample_object_1_5:
  "map NAME (projr (createObject plain_tsv parse_version TAB (Fin (3 / 2)) catalog_lines))
     = [''Type'', ''Metadata'', ''Pages'']
   \<and> isl (createObject plain_tsv parse_version TAB (Fin (3 / 2)) catalog_lines) = False"
  by code_simp

lemma sample_object_1_0:
  "map NAME (projr (createObject plain_tsv parse_version TAB (Fin 1) catalog_lines))
     = [''Type'', ''Pages'']
   \<and> isl (createObject plain_tsv parse_version TAB (Fin 1) catalog_lines) = False"
  by code_simp

text \<open>
  Claim C3: when the run over the rows of a file ends without an exception, the entries of
  the OBJECT element are, in the order of the rows, the entries of exactly those rows whose
  parsed SinceVersion is \<open><=\<close> the target version, each under the key of its row; a row whose
  version is not \<open><=\<close> the target version gives no entry.
\<close>

theorem rows_kept_iff_introduced:
  assumes "createObject tsv parseFloat delimiter pdf_ver lines = Inr entries"
  shows "map NAME entries =
       map (current_entry delimiter)
         (filter (\<lambda>line. case current_entry_version parseFloat delimiter line of
                    Inr version \<Rightarrow> jle version pdf_ver | Inl e \<Rightarrow> False) (drop 1 lines))
     \<and> (\<forall>line \<in> set (drop 1 lines).
          \<exists>version r. current_entry_version parseFloat delimiter line = Inr version
            \<and> createEntry tsv parseFloat delimiter pdf_ver line = Inr r
            \<and> (r \<noteq> None) = jle version pdf_ver)"
proof -
  from assms have r: "rows_loop tsv parseFloat delimiter pdf_ver (drop 1 lines) = Inr entries"
    by (simp add: createObject_def)
  have "\<exists>version r. current_entry_version parseFloat delimiter line = Inr version
            \<and> createEntry tsv parseFloat delimiter pdf_ver line = Inr r
            \<and> (r \<noteq> None) = jle version pdf_ver"
    if "line \<in> set (drop 1 lines)" for line
  proof -
    from rows_loop_versions[OF r that] obtain version where
      v: "current_entry_version parseFloat delimiter line = Inr version" by blast
    have "\<exists>r. createEntry tsv parseFloat delimiter pdf_ver line = Inr r"
      using r that
    proof (induction "drop 1 lines" arbitrary: lines entries)
      case Nil
      then show ?case by simp
    next
      case (Cons l rest)
      from Cons.hyps(2)[symmetric] Cons.prems(1) obtain e es' where
        e: "createEntry tsv parseFloat delimiter pdf_ver l = Inr e" and
        r': "rows_loop tsv parseFloat delimiter pdf_ver rest = Inr es'"
        by (auto simp add: ebind_def split: sum.splits)
      show ?case
      proof (cases "line = l")
        case True
        with e show ?thesis by blast
      next
        case False
        with Cons.prems(2) Cons.hyps(2)[symmetric] have "line \<in> set rest" by simp
        with Cons.hyps(1)[of "l # rest" es'] r' show ?thesis by simp
      qed
    qed
    then obtain r where c: "createEntry tsv parseFloat delimiter pdf_ver line = Inr r" by blast
    have "(r \<noteq> None) = jle version pdf_ver"
      using c v createEntry_None[of tsv parseFloat delimiter pdf_ver line]
        createEntry_Some[of tsv parseFloat delimiter pdf_ver line]
      by (cases r) auto
    with v c show ?thesis by blast
  qed
  with rows_loop_names[OF r] show ?thesis by blast
qed

text \<open>
  The theorem of claim C3 at the sample file and the target version 1.5: of its rows Type
  (1.0), DSS (2.0), Metadata (1.5) and Pages (1.0) all but DSS are kept.
\<close>

theorem rows_kept_iff_introduced_witness:
  "(\<exists>entries. createObject plain_tsv parse_version TAB (Fin (3 / 2)) catalog_lines = Inr entries
      \<and> map NAME entries = [''Type'', ''Metadata'', ''Pages''])
   \<and> map (current_entry TAB) (drop 1 catalog_lines) = [''Type'', ''DSS'', ''Metadata'', ''Pages'']"
proof -
  obtain entries where
    e: "createObject plain_tsv parse_version TAB (Fin (3 / 2)) catalog_lines = Inr entries"
    using sample_object_1_5 by (cases "createObject plain_tsv parse_version TAB (Fin (3 / 2)) catalog_lines") auto
  from rows_kept_iff_introduced[OF e]
  have "map NAME entries =
       map (current_entry TAB)
         (filter (\<lambda>line. case current_entry_version parse_version TAB line of
                    Inr version \<Rightarrow> jle version (Fin (3 / 2)) | Inl e \<Rightarrow> False) (drop 1 catalog_lines))"
    by blast
  also have "\<dots> = [''Type'', ''Metadata'', ''Pages'']"
    by code_simp
  finally have n: "map NAME entries = [''Type'', ''Metadata'', ''Pages'']" .
  have k: "map (current_entry TAB) (drop 1 catalog_lines) = [''Type'', ''DSS'', ''Metadata'', ''Pages'']"
    by code_simp
  from e n have "\<exists>entries. createObject plain_tsv parse_version TAB (Fin (3 / 2)) catalog_lines = Inr entries
      \<and> map NAME entries = [''Type'', ''Metadata'', ''Pages'']"
    by (intro exI[of _ entries] conjI)
  from this k show ?thesis by (rule conjI)
qed

text \<open>
  Claim C2: for target versions \<open>v1 <= v2\<close> and a file on which both runs end without an
  exception, every key of the OBJECT element made for \<open>v1\<close> is a key of the one made for
  \<open>v2\<close>.
\<close>

theorem keys_grow_with_version:
  assumes "jle v1 v2"
    and "createObject tsv parseFloat delimiter v1 lines = Inr entries1"
    and "createObject tsv parseFloat delimiter v2 lines = Inr entries2"
  shows "set (map NAME entries1) \<subseteq> set (map NAME entries2)"
proof -
  from assms(2) have 1: "map NAME entries1 =
       map (current_entry delimiter)
         (filter (\<lambda>line. case current_entry_version parseFloat delimiter line of
                    Inr version \<Rightarrow> jle version v1 | Inl e \<Rightarrow> False) (drop 1 lines))"
    by (simp add: createObject_def rows_loop_names)
  from assms(3) have 2: "map NAME entries2 =
       map (current_entry delimiter)
         (filter (\<lambda>line. case current_entry_version parseFloat delimiter line of
                    Inr version \<Rightarrow> jle version v2 | Inl e \<Rightarrow> False) (drop 1 lines))"
    by (simp add: createObject_def rows_loop_names)
  have "(case current_entry_version parseFloat delimiter line of
           Inr version \<Rightarrow> jle version v2 | Inl e \<Rightarrow> False)"
    if "(case current_entry_version parseFloat delimiter line of
           Inr version \<Rightarrow> jle version v1 | Inl e \<Rightarrow> False)" for line
    using that assms(1) jle_trans[of _ v1 v2] by (auto split: sum.splits)
  then show ?thesis
    unfolding 1 2 by auto
qed

text \<open>
  The theorem of claim C2 at the sample file and the target versions 1.0 and 1.5.
\<close>

theorem keys_grow_with_version_witness:
  "jle (Fin 1) (Fin (3 / 2))
   \<and> (\<exists>entries1 entries2.
        createObject plain_tsv parse_version TAB (Fin 1) catalog_lines = Inr entries1
      \<and> createObject plain_tsv parse_version TAB (Fin (3 / 2)) catalog_lines = Inr entries2
      \<and> map NAME entries1 = [''Type'', ''Pages'']
      \<and> map NAME entries2 = [''Type'', ''Metadata'', ''Pages'']
      \<and> set (map NAME entries1) \<subseteq> set (map NAME entries2))"
proof -
  have l: "jle (Fin 1) (Fin (3 / 2))" by simp
  obtain entries1 where
    e1: "createObject plain_tsv parse_version TAB (Fin 1) catalog_lines = Inr entries1"
    and n1: "map NAME entries1 = [''Type'', ''Pages'']"
    using sample_object_1_0 by (cases "createObject plain_tsv parse_version TAB (Fin 1) catalog_lines") auto
  obtain entries2 where
    e2: "createObject plain_tsv parse_version TAB (Fin (3 / 2)) catalog_lines = Inr entries2"
    and n2: "map NAME entries2 = [''Type'', ''Metadata'', ''Pages'']"
    using sample_object_1_5 by (cases "createObject plain_tsv parse_version TAB (Fin (3 / 2)) catalog_lines") auto
  from keys_grow_with_version[OF l e1 e2] e1 e2 n1 n2
  have "\<exists>entries1 entries2.
        createObject plain_tsv parse_version TAB (Fin 1) catalog_lines = Inr entries1
      \<and> createObject plain_tsv parse_version TAB (Fin (3 / 2)) catalog_lines = Inr entries2
      \<and> map NAME entries1 = [''Type'', ''Pages'']
      \<and> map NAME entries2 = [''Type'', ''Metadata'', ''Pages'']
      \<and> set (map NAME entries1) \<subseteq> set (map NAME entries2)"
    by (intro exI[of _ entries1] exI[of _ entries2] conjI)
  from l this show ?thesis by (rule conjI)
qed

subsection \<open>A predicate without its closing parenthesis\<close>

lemma starts_with_fn:
  assumes "startsWith a ''fn:''"
  shows "\<exists>rest. a = CHR ''f'' # CHR ''n'' # CHR '':'' # rest"
proof -
  from assms have "take (length ''fn:'') a = ''fn:''"
    unfolding startsWith_def .
  then have "a = ''fn:'' @ drop (length ''fn:'') a"
    by (metis append_take_drop_id)
  then show ?thesis by auto
qed

text \<open>
  A turn of the loop on a segment that starts with \<open>fn:\<close>, for a handler whose scan answers
  \<open>-1\<close>, the value that the assertion \<open>j != -1\<close> of \<open>nodeValues\<close> excludes: a VALUE with
  empty text is appended, only the first character of the segment is dropped, and the loop
  goes on with what is left, which no longer starts with \<open>fn:\<close>.
\<close>

lemma step_without_close_bracket:
  assumes "startsWith a ''fn:''" and "indexOfOuterCloseBracket tsv a = - 1"
  shows "values_step tsv of_link t a = Inr ((t, []), drop 1 a)
     \<and> \<not> startsWith (drop 1 a) ''fn:''
     \<and> values_loop tsv of_link t a =
         ebind (values_loop tsv of_link t (drop 1 a)) (\<lambda>vs. Inr ((t, []) # vs))"
proof -
  from starts_with_fn[OF assms(1)] obtain rest where a: "a = CHR ''f'' # CHR ''n'' # CHR '':'' # rest"
    by blast
  have nb: "\<not> isBlank a"
    by (simp add: a isBlank_def isWhitespace_def)
  have s: "values_step tsv of_link t a = Inr ((t, []), drop 1 a)"
    using assms by (simp add: values_step_def predicate_step_def ebind_def substring_def
        createNodeValue_def a isBlank_def isWhitespace_def)
  have n: "\<not> startsWith (drop 1 a) ''fn:''"
    by (simp add: a startsWith_def)
  have "values_loop tsv of_link t a =
         ebind (values_loop tsv of_link t (drop 1 a)) (\<lambda>vs. Inr ((t, []) # vs))"
    using nb s by (subst values_loop.simps) (simp add: ebind_def split: sum.splits)
  with s n show ?thesis by blast
qed

lemma plain_turn:
  assumes "\<not> isBlank a" and "\<not> startsWith a ''fn:''"
  shows "values_loop tsv of_link t a =
     ebind (values_loop tsv of_link t (snd (plain_step of_link t a)))
       (\<lambda>vs. Inr (fst (plain_step of_link t a) # vs))"
  using assms
  by (subst values_loop.simps) (simp add: values_step_def ebind_def split: sum.splits prod.splits)

lemma blank_turn: "isBlank a \<Longrightarrow> values_loop tsv of_link t a = Inr []"
  by (subst values_loop.simps) simp

lemma rest_split_at_comma:
  "values_loop tsv False ''string'' ''n:Eval(x,y'' = Inr [(''string'', ''n:Eval(x''), (''string'', ''y'')]"
proof -
  have 1: "plain_step False ''string'' ''n:Eval(x,y'' = ((''string'', ''n:Eval(x''), ''y'')"
    by (simp add: plain_step_def indexOf_def createNodeValue_def)
  have 2: "plain_step False ''string'' ''y'' = ((''string'', ''y''), [])"
    by (simp add: plain_step_def indexOf_def createNodeValue_def)
  have 3: "values_loop tsv False ''string'' [] = Inr []"
    by (rule blank_turn) (simp add: isBlank_def)
  have 4: "values_loop tsv False ''string'' ''y'' = Inr [(''string'', ''y'')]"
    using plain_turn[of "''y''" tsv False "''string''"] 2 3
    by (simp add: isBlank_def isWhitespace_def startsWith_def ebind_def)
  show ?thesis
    using plain_turn[of "''n:Eval(x,y''" tsv False "''string''"] 1 4
    by (simp add: isBlank_def isWhitespace_def startsWith_def ebind_def)
qed

text \<open>
  Claim C8, at the PossibleValues cell \<open>[fn:Eval(x,y]\<close> of a string, whose predicate has no
  closing parenthesis, for every handler whose scan answers \<open>-1\<close>: \<open>nodeValues\<close> raises
  nothing and reports nothing, and returns three VALUE elements, an empty one and the two
  pieces of \<open>n:Eval(x,y\<close> at its comma; none of them is the segment up to the end of the string.
\<close>

theorem no_close_bracket_splits_predicate:
  "nodeValues (tsv\<lparr>indexOfOuterCloseBracket := (\<lambda>a. - 1)\<rparr>) ''string'' '''' ''[fn:Eval(x,y]'' ''[]'' =
     Inr [(''string'', []), (''string'', ''n:Eval(x''), (''string'', ''y'')]"
proof -
  have a: "startsWith ''fn:Eval(x,y'' ''fn:''"
    by (simp add: startsWith_def)
  have b: "indexOfOuterCloseBracket (tsv\<lparr>indexOfOuterCloseBracket := (\<lambda>a. - 1)\<rparr>) ''fn:Eval(x,y'' = - 1"
    by simp
  from step_without_close_bracket[OF a b, of False "''string''"]
    rest_split_at_comma[of "tsv\<lparr>indexOfOuterCloseBracket := (\<lambda>a. - 1)\<rparr>"]
  have l: "values_loop (tsv\<lparr>indexOfOuterCloseBracket := (\<lambda>a. - 1)\<rparr>) False ''string'' ''fn:Eval(x,y'' =
       Inr [(''string'', []), (''string'', ''n:Eval(x''), (''string'', ''y'')]"
    by (simp add: ebind_def)
  have i: "inner_of [''[fn:Eval(x,y]''] 0 = Inr ''fn:Eval(x,y''"
    by (simp add: inner_of_def column_def ebind_def substring_def)
  have j: "jsplit ''string'' CHR '';'' = [''string'']" "jsplit ''[fn:Eval(x,y]'' CHR '';'' = [''[fn:Eval(x,y]'']"
    "jsplit ''[]'' CHR '';'' = [''[]'']"
    by (simp_all add: jsplit_def)
  show ?thesis
    by (simp add: nodeValues_def j isBlank_def isWhitespace_def values_of_type_def needs_link_def
        i l ebind_def Let_def)
qed

subsection \<open>Which columns follow the type list\<close>

lemma update_column_result:
  assumes "update_column f i a = Inr a'"
  shows "i < length a \<and> f (a ! i) = Inr (a' ! i) \<and> length a' = length a
     \<and> (\<forall>k. k \<noteq> i \<longrightarrow> a' ! k = a ! k)"
  using assms
  by (auto simp add: update_column_def column_def ebind_def split: if_splits sum.splits)

lemma reduce_by_types_result:
  assumes "reduce_by_types tr cv = Inr c"
  shows "length c = length cv
     \<and> (if somethingReduced tr then
          c ! 1 = getReducedTypes tr
          \<and> reduceCorresponding tr (cv ! 5) = Inr (c ! 5)
          \<and> reduceCorresponding tr (cv ! 7) = Inr (c ! 7)
          \<and> reduceCorresponding tr (cv ! 9) = Inr (c ! 9)
        else c ! 1 = cv ! 1 \<and> c ! 5 = cv ! 5 \<and> c ! 7 = cv ! 7 \<and> c ! 9 = cv ! 9)
     \<and> (\<forall>k. k \<notin> {1, 5, 7, 9} \<longrightarrow> c ! k = cv ! k)"
proof (cases "somethingReduced tr")
  case False
  with assms show ?thesis by (simp add: reduce_by_types_def)
next
  case True
  with assms obtain x y z where
    x: "update_column (\<lambda>c. Inr (getReducedTypes tr)) 1 cv = Inr x" and
    y: "update_column (reduceCorresponding tr) 5 x = Inr y" and
    z: "update_column (reduceCorresponding tr) 7 y = Inr z" and
    c: "update_column (reduceCorresponding tr) 9 z = Inr c"
    by (auto simp add: reduce_by_types_def ebind_def split: sum.splits)
  note fx = update_column_result[OF x] and fy = update_column_result[OF y]
    and fz = update_column_result[OF z] and fc = update_column_result[OF c]
  have l: "length c = length cv" using fx fy fz fc by simp
  have 1: "c ! 1 = getReducedTypes tr" using fx fy fz fc by simp
  have 5: "reduceCorresponding tr (cv ! 5) = Inr (c ! 5)" using fx fy fz fc by simp
  have 7: "reduceCorresponding tr (cv ! 7) = Inr (c ! 7)" using fx fy fz fc by simp
  have 9: "reduceCorresponding tr (cv ! 9) = Inr (c ! 9)" using fx fy fz fc by simp
  have o: "\<forall>k. k \<notin> {1, 5, 7, 9} \<longrightarrow> c ! k = cv ! k" using fx fy fz fc by simp
  from True l 1 5 7 9 o show ?thesis by simp
qed

lemma reduce_columns_result:
  assumes "reduce_columns tsv pdf_ver cv = Inr cv'"
  shows "\<exists>types_reduced.
       reduceTypesForVersion tsv (cv ! 1) pdf_ver = Inr types_reduced
     \<and> (if somethingReduced types_reduced then
          cv' ! 1 = getReducedTypes types_reduced
          \<and> reduceCorresponding types_reduced (cv ! 5) = Inr (cv' ! 5)
          \<and> reduceCorresponding types_reduced (cv ! 7) = Inr (cv' ! 7)
          \<and> reduceCorresponding types_reduced (cv ! 9) = Inr (cv' ! 9)
        else cv' ! 1 = cv ! 1 \<and> cv' ! 5 = cv ! 5 \<and> cv' ! 7 = cv ! 7 \<and> cv' ! 9 = cv ! 9)
     \<and> reduceRequiredForVersion tsv (cv ! 4) pdf_ver = Inr (cv' ! 4)
     \<and> reduceComplexForVersion tsv (cv ! 8) pdf_ver = Inr (cv' ! 8)
     \<and> reduceComplexForVersion tsv (cv ! 10) pdf_ver = Inr (cv' ! 10)
     \<and> (\<forall>k. k \<notin> {1, 4, 5, 7, 8, 9, 10} \<longrightarrow> cv' ! k = cv ! k)
     \<and> length cv' = length cv"
proof -
  from assms obtain tr c1 c2 c3 where
    t: "reduceTypesForVersion tsv (cv ! 1) pdf_ver = Inr tr"
    and a: "reduce_by_types tr cv = Inr c1"
    and b: "update_column (\<lambda>c. reduceRequiredForVersion tsv c pdf_ver) 4 c1 = Inr c2"
    and c: "update_column (\<lambda>c. reduceComplexForVersion tsv c pdf_ver) 8 c2 = Inr c3"
    and d: "update_column (\<lambda>c. reduceComplexForVersion tsv c pdf_ver) 10 c3 = Inr cv'"
    by (auto simp add: reduce_columns_def column_def ebind_def split: sum.splits if_splits)
  note fa = reduce_by_types_result[OF a] and fb = update_column_result[OF b]
    and fc = update_column_result[OF c] and fd = update_column_result[OF d]
  have l: "length cv' = length cv" using fa fb fc fd by simp
  have 4: "reduceRequiredForVersion tsv (cv ! 4) pdf_ver = Inr (cv' ! 4)" using fa fb fc fd by simp
  have 8: "reduceComplexForVersion tsv (cv ! 8) pdf_ver = Inr (cv' ! 8)" using fa fb fc fd by simp
  have 10: "reduceComplexForVersion tsv (cv ! 10) pdf_ver = Inr (cv' ! 10)" using fa fb fc fd by simp
  have o: "\<forall>k. k \<notin> {1, 4, 5, 7, 8, 9, 10} \<longrightarrow> cv' ! k = cv ! k" using fa fb fc fd by simp
  have s: "cv' ! 1 = c1 ! 1 \<and> cv' ! 5 = c1 ! 5 \<and> cv' ! 7 = c1 ! 7 \<and> cv' ! 9 = c1 ! 9"
    using fb fc fd by simp
  have m: "if somethingReduced tr then
          cv' ! 1 = getReducedTypes tr
          \<and> reduceCorresponding tr (cv ! 5) = Inr (cv' ! 5)
          \<and> reduceCorresponding tr (cv ! 7) = Inr (cv' ! 7)
          \<and> reduceCorresponding tr (cv ! 9) = Inr (cv' ! 9)
        else cv' ! 1 = cv ! 1 \<and> cv' ! 5 = cv ! 5 \<and> cv' ! 7 = cv ! 7 \<and> cv' ! 9 = cv ! 9"
    using fa s by (simp split: if_splits)
  from t m 4 8 10 o l show ?thesis by blast
qed

text \<open>
  Two rows with the same Links column end with the same Links column, whatever their type
  lists are and whatever the handler does.
\<close>

lemma same_links_same_reduced_links:
  assumes "reduce_columns tsv pdf_ver cva = Inr a" and "reduce_columns tsv pdf_ver cvb = Inr b"
    and "cva ! 10 = cvb ! 10"
  shows "a ! 10 = b ! 10"
proof -
  from reduce_columns_result[OF assms(1)]
  have "reduceComplexForVersion tsv (cva ! 10) pdf_ver = Inr (a ! 10)" by blast
  moreover from reduce_columns_result[OF assms(2)]
  have "reduceComplexForVersion tsv (cvb ! 10) pdf_ver = Inr (b ! 10)" by blast
  ultimately show ?thesis using assms(3) by simp
qed


end
